theory Spec2Isabelle
  imports Main "HOL-Library.Sublist"
begin

section \<open>Strings\<close>

text \<open>
  Python strings are modelled as \<open>string\<close> over the ASCII range: \<open>str.lower\<close> maps
  \<open>A\<close>..\<open>Z\<close> to \<open>a\<close>..\<open>z\<close>, \<open>str.strip\<close> removes the ASCII characters for which
  \<open>str.isspace\<close> holds (codes 9 to 13, 28 to 31 and 32), and the regular expression
  class \<open>\d\<close> is \<open>0\<close>..\<open>9\<close>.
\<close>

definition is_space :: "char \<Rightarrow> bool" where
  "is_space c = (c \<in> set [CHR 0x09, CHR 0x0A, CHR 0x0B, CHR 0x0C, CHR 0x0D,
                           CHR 0x1C, CHR 0x1D, CHR 0x1E, CHR 0x1F, CHR 0x20])"

definition strip :: "string \<Rightarrow> string" where
  "strip s = rev (dropWhile is_space (rev (dropWhile is_space s)))"

definition lower_char :: "char \<Rightarrow> char" where
  "lower_char c =
     (case map_of (zip ''ABCDEFGHIJKLMNOPQRSTUVWXYZ'' ''abcdefghijklmnopqrstuvwxyz'') c of
        Some d \<Rightarrow> d
      | None \<Rightarrow> c)"

definition lower :: "string \<Rightarrow> string" where
  "lower s = map lower_char s"

definition is_digit :: "char \<Rightarrow> bool" where
  "is_digit c = (c \<in> set ''0123456789'')"

text \<open>Python's \<open>p in s\<close> on strings: \<open>p\<close> occurs in \<open>s\<close> as a contiguous run.\<close>

fun str_contains :: "string \<Rightarrow> string \<Rightarrow> bool" where
  "str_contains p [] = (p = [])"
| "str_contains p (c # cs) = (prefix p (c # cs) \<or> str_contains p cs)"

text \<open>\<open>sep.join(xs)\<close>.\<close>

fun join :: "string \<Rightarrow> string list \<Rightarrow> string" where
  "join sep [] = []"
| "join sep [x] = x"
| "join sep (x # y # ys) = x @ sep @ join sep (y # ys)"

text \<open>\<open>s.replace(',', '')\<close>.\<close>

definition remove_commas :: "string \<Rightarrow> string" where
  "remove_commas s = filter (\<lambda>c. c \<noteq> CHR '','') s"

text \<open>
  \<open>re.findall(r'(\d[\d,]*)', text)\<close>: the non-overlapping matches from left to right. A
  match starts at the next digit and, the star being greedy, takes every following digit
  or comma.
\<close>

definition digit_or_comma :: "char \<Rightarrow> bool" where
  "digit_or_comma c = (is_digit c \<or> c = CHR '','')"

function findall_digit_runs :: "string \<Rightarrow> string list" where
  "findall_digit_runs s =
     (case dropWhile (\<lambda>c. \<not> is_digit c) s of
        [] \<Rightarrow> []
      | d # rest \<Rightarrow> (d # takeWhile digit_or_comma rest)
                    # findall_digit_runs (dropWhile digit_or_comma rest))"
  by pat_completeness auto
termination
proof (relation "measure length")
  show "wf (measure length)" by simp
next
  fix s :: string and d rest
  assume a: "dropWhile (\<lambda>c. \<not> is_digit c) s = d # rest"
  have "length (dropWhile digit_or_comma rest) \<le> length rest"
    by (rule length_dropWhile_le)
  moreover have "length (d # rest) \<le> length s"
    unfolding a [symmetric] by (rule length_dropWhile_le)
  ultimately show "(dropWhile digit_or_comma rest, s) \<in> measure length"
    by simp
qed

text \<open>\<open>re.search(r'(\d+)', s)\<close> and \<open>m.group(1)\<close>: the first maximal run of digits.\<close>

definition search_digits :: "string \<Rightarrow> string option" where
  "search_digits s =
     (case dropWhile (\<lambda>c. \<not> is_digit c) s of
        [] \<Rightarrow> None
      | d # rest \<Rightarrow> Some (d # takeWhile is_digit rest))"

section \<open>The parsed document\<close>

text \<open>
  The tree BeautifulSoup builds with \<open>html.parser\<close>: a node is a text node or a tag with
  its name (lower-cased by the parser), its \<open>class\<close> attribute (held as the list of its
  tokens, \<open>None\<close> when the attribute is absent), its other attributes (a dictionary from
  names to strings, here an association list read with \<open>map_of\<close>) and its children. The
  \<open>soup\<close> object is itself a tag, named \<open>[document]\<close>. The model holds the ordinary
  text nodes only: comments, declarations and the strings inside \<open>script\<close>, \<open>style\<close> and
  \<open>template\<close>, which BeautifulSoup keeps in classes of their own and leaves out of
  \<open>get_text\<close> and \<open>stripped_strings\<close>, are not part of it.
\<close>

datatype node =
    NavigableString string
  | Tag string "string list option" "(string \<times> string) list" "node list"

datatype error = TypeError | KeyError | IndexError | AttributeError

fun is_tag :: "node \<Rightarrow> bool" where
  "is_tag (Tag n c a k) = True"
| "is_tag (NavigableString s) = False"

fun tag_name :: "node \<Rightarrow> string" where
  "tag_name (Tag n c a k) = n"
| "tag_name (NavigableString s) = []"

text \<open>\<open>tag.get(key)\<close> for a string-valued attribute.\<close>

fun get :: "node \<Rightarrow> string \<Rightarrow> string option" where
  "get (Tag n c a k) key = map_of a key"
| "get (NavigableString s) key = None"

text \<open>\<open>node.descendants\<close>: everything below the node, in document order.\<close>

fun descendants :: "node \<Rightarrow> node list" where
  "descendants (NavigableString s) = []"
| "descendants (Tag n c a kids) = concat (map (\<lambda>k. k # descendants k) kids)"

definition tags_of :: "node \<Rightarrow> node list" where
  "tags_of soup = filter is_tag (descendants soup)"

text \<open>The text nodes a node yields: itself if it is one, else those below it.\<close>

fun strings_of :: "node \<Rightarrow> string list" where
  "strings_of (NavigableString s) = [s]"
| "strings_of (Tag n c a kids) =
     concat (map (\<lambda>d. case d of NavigableString s \<Rightarrow> [s] | Tag _ _ _ _ \<Rightarrow> [])
                 (descendants (Tag n c a kids)))"

text \<open>\<open>node.stripped_strings\<close>: each string stripped, the empty ones dropped.\<close>

definition stripped_strings :: "node \<Rightarrow> string list" where
  "stripped_strings n = filter (\<lambda>v. v \<noteq> []) (map strip (strings_of n))"

text \<open>\<open>node.get_text(separator=sep, strip=True)\<close>.\<close>

definition get_text :: "string \<Rightarrow> node \<Rightarrow> string" where
  "get_text sep n = join sep (stripped_strings n)"

text \<open>\<open>soup.select('a, b, ...')\<close> for a list of tag names: the matching tags in document order.\<close>

definition select :: "string list \<Rightarrow> node \<Rightarrow> node list" where
  "select names soup = filter (\<lambda>t. tag_name t \<in> set names) (tags_of soup)"

text \<open>\<open>soup.find_all(f)\<close> for a function \<open>f\<close> on tags.\<close>

definition find_all :: "(node \<Rightarrow> bool) \<Rightarrow> node \<Rightarrow> node list" where
  "find_all f soup = filter f (tags_of soup)"

text \<open>\<open>soup.find_all(string=f)\<close>: the text nodes on which \<open>f\<close> holds.\<close>

definition find_all_string :: "(string \<Rightarrow> bool) \<Rightarrow> node \<Rightarrow> string list" where
  "find_all_string f soup = filter f (strings_of soup)"

section \<open>The field extractors\<close>

fun extract_name_loop :: "node list \<Rightarrow> string" where
  "extract_name_loop [] = ''N/A''"
| "extract_name_loop (tag # tags) =
     (let text = get_text [] tag
      in if length text > 4 then text else extract_name_loop tags)"

definition extract_name :: "node \<Rightarrow> string" where
  "extract_name soup = extract_name_loop (select [''h1'', ''h2''] soup)"

fun extract_price_loop :: "node list \<Rightarrow> string" where
  "extract_price_loop [] = ''N/A''"
| "extract_price_loop (tag # tags) =
     (let txt = lower (get_text [] tag)
      in if str_contains ''$'' txt \<or> str_contains ''usd'' txt then txt
         else extract_price_loop tags)"

definition extract_price :: "node \<Rightarrow> string" where
  "extract_price soup = extract_price_loop (select [''span'', ''div''] soup)"

text \<open>
  \<open>soup.select_one('img[src*="product"]')\<close>: the first \<open>img\<close> tag, in document order, that
  has a \<open>src\<close> attribute containing \<open>product\<close>; Python's \<open>None\<close> when there is none.
\<close>

definition src_has_product :: "node \<Rightarrow> bool" where
  "src_has_product t =
     (tag_name t = ''img'' \<and>
      (case get t ''src'' of None \<Rightarrow> False | Some v \<Rightarrow> str_contains ''product'' v))"

definition select_one_img :: "node \<Rightarrow> node option" where
  "select_one_img soup = List.find src_has_product (tags_of soup)"

text \<open>\<open>x[key]\<close>: \<open>TypeError\<close> on \<open>None\<close>, \<open>KeyError\<close> on a tag without the attribute.\<close>

fun subscript :: "node option \<Rightarrow> string \<Rightarrow> error + string" where
  "subscript None key = Inl TypeError"
| "subscript (Some t) key = (case get t key of None \<Rightarrow> Inl KeyError | Some v \<Rightarrow> Inr v)"

definition extract_image :: "node \<Rightarrow> string" where
  "extract_image soup =
     (case subscript (select_one_img soup) ''src'' of
        Inr v \<Rightarrow> v
      | Inl e \<Rightarrow> ''N/A'')"

fun extract_ingredients_loop :: "node list \<Rightarrow> string" where
  "extract_ingredients_loop [] = ''N/A''"
| "extract_ingredients_loop (tag # tags) =
     (if str_contains ''ingredient'' (lower (get_text [] tag)) then get_text '' '' tag
      else extract_ingredients_loop tags)"

definition extract_ingredients :: "node \<Rightarrow> string" where
  "extract_ingredients soup =
     extract_ingredients_loop (select [''div'', ''section'', ''p''] soup)"

section \<open>The shade extractor\<close>

text \<open>The tests of the four attribute scans.\<close>

fun class_has :: "string \<Rightarrow> node \<Rightarrow> bool" where
  "class_has w (Tag n (Some cs) a k) = list_ex (\<lambda>c. str_contains w (lower c)) cs"
| "class_has w (Tag n None a k) = False"
| "class_has w (NavigableString s) = False"

definition attr_has :: "string \<Rightarrow> string \<Rightarrow> node \<Rightarrow> bool" where
  "attr_has key w t = (case get t key of None \<Rightarrow> False | Some v \<Rightarrow> str_contains w (lower v))"

definition shade_selectors :: "node \<Rightarrow> node list" where
  "shade_selectors soup =
     find_all (class_has ''shade'') soup @
     find_all (attr_has ''id'' ''shade'') soup @
     find_all (attr_has ''aria-label'' ''shade'') soup @
     find_all (attr_has ''title'' ''shade'') soup"

text \<open>
  \<open>hasattr(descendant, 'get_text')\<close>: from BeautifulSoup 4.10 on every node, a text node
  too, has the method \<open>get_text\<close>, so the test holds of every descendant.
\<close>

definition hasattr_get_text :: "node \<Rightarrow> bool" where
  "hasattr_get_text d = True"

text \<open>\<open>descendant.has_attr(key)\<close>: a method of tags only.\<close>

fun has_attr :: "node \<Rightarrow> string \<Rightarrow> error + bool" where
  "has_attr (Tag n c a k) key = Inr (map_of a key \<noteq> None)"
| "has_attr (NavigableString s) key = Inl AttributeError"

text \<open>
  The Python set \<open>shade_candidates\<close> is kept as the list of its members, without
  repetition, in the order they were first added.
\<close>

definition set_add :: "string \<Rightarrow> string list \<Rightarrow> string list" where
  "set_add x S = (if x \<in> set S then S else S @ [x])"

text \<open>One pass of the inner loop body, for the descendant \<open>d\<close>.\<close>

definition harvest :: "node \<Rightarrow> string list \<Rightarrow> error + string list" where
  "harvest d S =
     (if hasattr_get_text d then
        (let txt = get_text [] d in Inr (if txt \<noteq> [] then set_add txt S else S))
      else
        (case has_attr d ''alt'' of
           Inl e \<Rightarrow> Inl e
         | Inr True \<Rightarrow>
             (case subscript (Some d) ''alt'' of
                Inl e \<Rightarrow> Inl e | Inr v \<Rightarrow> Inr (set_add v S))
         | Inr False \<Rightarrow>
             (case has_attr d ''title'' of
                Inl e \<Rightarrow> Inl e
              | Inr True \<Rightarrow>
                  (case subscript (Some d) ''title'' of
                     Inl e \<Rightarrow> Inl e | Inr v \<Rightarrow> Inr (set_add v S))
              | Inr False \<Rightarrow> Inr S)))"

fun harvest_all :: "node list \<Rightarrow> string list \<Rightarrow> error + string list" where
  "harvest_all [] S = Inr S"
| "harvest_all (d # ds) S =
     (case harvest d S of Inl e \<Rightarrow> Inl e | Inr S' \<Rightarrow> harvest_all ds S')"

text \<open>
  \<open>list(filter(..., shade_candidates))\<close> walks the set in Python's iteration order, which
  depends on the hashes of the strings and so changes from one run to the next. The order
  is a parameter: a function from the members as they were added to the sequence the
  iteration yields, which holds the same members, each once.
\<close>

definition iteration_order :: "(string list \<Rightarrow> string list) \<Rightarrow> bool" where
  "iteration_order ord = (\<forall>S. distinct S \<longrightarrow> set (ord S) = set S \<and> distinct (ord S))"

definition extract_shades :: "(string list \<Rightarrow> string list) \<Rightarrow> node \<Rightarrow> error + string list" where
  "extract_shades ord soup =
     (case harvest_all (concat (map descendants (shade_selectors soup))) [] of
        Inl e \<Rightarrow> Inl e
      | Inr shade_candidates \<Rightarrow>
          (let shades = filter (\<lambda>x. strip x \<noteq> []) (ord shade_candidates)
           in Inr (if shades \<noteq> [] then shades else [''N/A''])))"

section \<open>The sales proxies\<close>

record sales_proxies =
  sp_number_of_reviews :: string
  sp_bestseller :: bool
  sp_stock_status :: string

definition mentions_review :: "string \<Rightarrow> bool" where
  "mentions_review text =
     (text \<noteq> [] \<and>
      (str_contains ''review'' (lower text) \<or> str_contains ''rating'' (lower text)))"

fun num_reviews_loop :: "string list \<Rightarrow> string" where
  "num_reviews_loop [] = ''N/A''"
| "num_reviews_loop (text # texts) =
     (case findall_digit_runs text of
        [] \<Rightarrow> num_reviews_loop texts
      | m # ms \<Rightarrow> remove_commas m)"

definition stock_out_indicators :: "string list" where
  "stock_out_indicators = [''out of stock'', ''sold out'', ''unavailable'']"

fun stock_loop :: "string list \<Rightarrow> string \<Rightarrow> string" where
  "stock_loop [] page_text = ''In stock''"
| "stock_loop (phrase # phrases) page_text =
     (if str_contains phrase page_text then ''Out of stock''
      else stock_loop phrases page_text)"

definition page_text :: "node \<Rightarrow> string" where
  "page_text soup = lower (join '' '' (stripped_strings soup))"

definition extract_sales_proxies :: "node \<Rightarrow> sales_proxies" where
  "extract_sales_proxies soup =
     \<lparr> sp_number_of_reviews = num_reviews_loop (find_all_string mentions_review soup),
       sp_bestseller = list_ex (\<lambda>s. str_contains ''bestseller'' (lower s)) (stripped_strings soup),
       sp_stock_status = stock_loop stock_out_indicators (page_text soup) \<rparr>"

section \<open>The review extractor\<close>

text \<open>
  One review, as the dictionary the extractor appends. \<open>star_rating\<close> is the value of a
  Python \<open>or\<close> over two \<open>tag.get\<close> calls, so it is an optional string, \<open>None\<close> being
  Python's \<open>None\<close>.
\<close>

record review =
  star_rating :: "string option"
  review_text :: string
  review_date :: string
  reviewer :: string
  verified_purchase :: bool
  helpful_votes :: string

text \<open>\<open>a or b\<close> on optional strings: \<open>None\<close> and the empty string are false.\<close>

fun py_or :: "string option \<Rightarrow> string option \<Rightarrow> string option" where
  "py_or None b = b"
| "py_or (Some a) b = (if a = [] then b else Some a)"

text \<open>
  \<open>container.find(f)\<close>: the first tag below the container on which \<open>f\<close> holds, \<open>None\<close>
  when there is none. An exception raised by \<open>f\<close> on a tag met before ends the search.
\<close>

fun find_tag :: "(node \<Rightarrow> error + bool) \<Rightarrow> node list \<Rightarrow> error + node option" where
  "find_tag f [] = Inr None"
| "find_tag f (t # ts) =
     (case f t of
        Inl e \<Rightarrow> Inl e
      | Inr True \<Rightarrow> Inr (Some t)
      | Inr False \<Rightarrow> find_tag f ts)"

text \<open>\<open>container.find('img', alt=lambda alt: alt and 'star' in alt.lower())\<close>.\<close>

definition img_alt_star :: "node \<Rightarrow> bool" where
  "img_alt_star t =
     (tag_name t = ''img'' \<and>
      (case get t ''alt'' of
         None \<Rightarrow> False
       | Some alt \<Rightarrow> alt \<noteq> [] \<and> str_contains ''star'' (lower alt)))"

text \<open>
  \<open>tag.has_attr('class') and any(x in tag['class'][0].lower() for x in ws)\<close>: the first
  class token is read, which raises \<open>IndexError\<close> on an empty token list.
\<close>

fun first_class_has :: "string list \<Rightarrow> node \<Rightarrow> error + bool" where
  "first_class_has ws (Tag n (Some (c # cs)) a k) =
     Inr (list_ex (\<lambda>x. str_contains x (lower c)) ws)"
| "first_class_has ws (Tag n (Some []) a k) = Inl IndexError"
| "first_class_has ws (Tag n None a k) = Inr False"
| "first_class_has ws (NavigableString s) = Inr False"

fun helpful_votes_loop :: "string list \<Rightarrow> string" where
  "helpful_votes_loop [] = ''N/A''"
| "helpful_votes_loop (s # ss) =
     (if str_contains ''found this helpful'' (lower s) then
        (case search_digits s of
           Some m \<Rightarrow> m
         | None \<Rightarrow> helpful_votes_loop ss)
      else helpful_votes_loop ss)"

definition rating_of :: "node \<Rightarrow> string option" where
  "rating_of container =
     (let rating_tag = List.find (attr_has ''aria-label'' ''star'') (tags_of container);
          rating_tag = (case rating_tag of
                          None \<Rightarrow> List.find img_alt_star (tags_of container)
                        | Some t \<Rightarrow> Some t)
      in case rating_tag of
           None \<Rightarrow> Some ''N/A''
         | Some t \<Rightarrow> py_or (get t ''aria-label'') (get t ''alt''))"

text \<open>The body of the loop over the containers.\<close>

definition extract_review :: "node \<Rightarrow> error + review" where
  "extract_review container =
     (case find_tag (first_class_has [''date'']) (tags_of container) of
        Inl e \<Rightarrow> Inl e
      | Inr date_tag \<Rightarrow>
     (case find_tag (first_class_has [''author'', ''name'', ''location'']) (tags_of container) of
        Inl e \<Rightarrow> Inl e
      | Inr reviewer_tag \<Rightarrow>
          Inr \<lparr> star_rating = rating_of container,
                review_text = get_text '' '' container,
                review_date = (case date_tag of None \<Rightarrow> ''N/A'' | Some t \<Rightarrow> get_text [] t),
                reviewer = (case reviewer_tag of None \<Rightarrow> ''N/A'' | Some t \<Rightarrow> get_text [] t),
                verified_purchase =
                  list_ex (\<lambda>s. str_contains ''verified purchase'' (lower s))
                          (stripped_strings container),
                helpful_votes = helpful_votes_loop (stripped_strings container) \<rparr>))"

fun extract_reviews_loop :: "node list \<Rightarrow> error + review list" where
  "extract_reviews_loop [] = Inr []"
| "extract_reviews_loop (container # containers) =
     (case extract_review container of
        Inl e \<Rightarrow> Inl e
      | Inr r \<Rightarrow>
          (case extract_reviews_loop containers of
             Inl e \<Rightarrow> Inl e
           | Inr rs \<Rightarrow> Inr (r # rs)))"

definition extract_reviews :: "node \<Rightarrow> error + review list" where
  "extract_reviews soup = extract_reviews_loop (find_all (class_has ''review'') soup)"

section \<open>The aggregator\<close>

record product_info =
  url :: string
  name :: string
  price :: string
  type :: string
  shades :: "string list"
  image_src :: string
  ingredients :: string
  number_of_reviews :: string
  bestseller :: bool
  stock_status :: string
  reviews :: string

text \<open>What an f-string prints for an optional string and for a boolean.\<close>

fun str_of_opt :: "string option \<Rightarrow> string" where
  "str_of_opt None = ''None''"
| "str_of_opt (Some s) = s"

definition str_of_bool :: "bool \<Rightarrow> string" where
  "str_of_bool b = (if b then ''True'' else ''False'')"

definition snippet :: "review \<Rightarrow> string" where
  "snippet r =
     str_of_opt (star_rating r) @ '' | '' @ take 100 (review_text r) @ '' | '' @
     review_date r @ '' | Verified: '' @ str_of_bool (verified_purchase r) @
     '' | Helpful: '' @ helpful_votes r"

text \<open>
  \<open>scrape_product\<close> on the page the browser has rendered: \<open>soup\<close> is the parse of
  \<open>driver.page_source\<close>. The field \<open>image_src\<close> is the key \<open>image\<close> of the dictionary.
\<close>

definition scrape_product ::
  "(string list \<Rightarrow> string list) \<Rightarrow> string \<Rightarrow> node \<Rightarrow> error + product_info" where
  "scrape_product ord u soup =
     (case extract_shades ord soup of
        Inl e \<Rightarrow> Inl e
      | Inr sh \<Rightarrow>
     (let sales = extract_sales_proxies soup
      in case extract_reviews soup of
        Inl e \<Rightarrow> Inl e
      | Inr rs \<Rightarrow>
          (let reviews_summary = map snippet rs
           in Inr \<lparr> url = u,
                     name = extract_name soup,
                     price = extract_price soup,
                     type = ''Foundation'',
                     shades = sh,
                     image_src = extract_image soup,
                     ingredients = extract_ingredients soup,
                     number_of_reviews = sp_number_of_reviews sales,
                     bestseller = sp_bestseller sales,
                     stock_status = sp_stock_status sales,
                     reviews = (if reviews_summary \<noteq> [] then join '' || '' reviews_summary
                                else ''N/A'') \<rparr>)))"

section \<open>The harvested shade strings, as a set\<close>

text \<open>
  The strings the shade extractor harvests: the non-empty stripped texts of the nodes
  below the candidate elements; and those of them that survive the final filter.
\<close>

definition harvested_texts :: "node \<Rightarrow> string set" where
  "harvested_texts soup =
     {x \<in> get_text [] ` (\<Union>e \<in> set (shade_selectors soup). set (descendants e)). x \<noteq> []}"

definition shade_set :: "node \<Rightarrow> string set" where
  "shade_set soup = {x \<in> harvested_texts soup. strip x \<noteq> []}"

section \<open>A sample page\<close>

definition product_page :: node where
  "product_page = Tag ''[document]'' None []
     [Tag ''h1'' None [] [NavigableString ''Velvet Matte Foundation''],
      Tag ''span'' (Some [''Price'']) [] [NavigableString '' $12.99 ''],
      Tag ''img'' None [(''src'', ''/assets/product-123.jpg'')] [],
      Tag ''div'' (Some [''Shade-list'']) []
        [Tag ''span'' None [] [NavigableString '' Ivory ''], NavigableString ''Sand''],
      Tag ''p'' None []
        [NavigableString ''Ingredients: Aqua,'', Tag ''b'' None [] [NavigableString '' Talc '']],
      Tag ''span'' None [] [NavigableString ''Temporarily Out Of Stock'']]"

section \<open>Evaluation and loop lemmas\<close>

lemmas string_eval =
  lower_def lower_char_def is_digit_def digit_or_comma_def remove_commas_def is_space_def strip_def

lemmas dom_eval =
  tags_of_def select_def find_all_def find_all_string_def stripped_strings_def get_text_def

lemma str_contains_sublist: "str_contains p s = sublist p s"
  by (induction s) (simp_all add: sublist_Cons_right)

lemma extract_name_loop_find:
  "extract_name_loop ts =
     (case List.find (\<lambda>t. length (get_text [] t) > 4) ts of
        None \<Rightarrow> ''N/A'' | Some t \<Rightarrow> get_text [] t)"
  by (induction ts) (simp_all add: Let_def)

lemma extract_name_loop_none:
  "(\<And>t. t \<in> set ts \<Longrightarrow> length (get_text [] t) \<le> 4) \<Longrightarrow> extract_name_loop ts = ''N/A''"
proof (induction ts)
  case Nil
  show ?case by simp
next
  case (Cons a ts)
  have "length (get_text [] a) \<le> 4" by (rule Cons.prems) simp
  moreover have "extract_name_loop ts = ''N/A''" by (rule Cons.IH) (simp add: Cons.prems)
  ultimately show ?case by (simp add: Let_def)
qed

lemma extract_price_loop_find:
  "extract_price_loop ts =
     (case List.find (\<lambda>t. str_contains ''$'' (lower (get_text [] t)) \<or>
                           str_contains ''usd'' (lower (get_text [] t))) ts of
        None \<Rightarrow> ''N/A'' | Some t \<Rightarrow> lower (get_text [] t))"
  by (induction ts) (simp_all add: Let_def)

section \<open>The review count\<close>

text \<open>
  C1 (the code departs from the claim). On the document whose only text node is
  \<open>4.8 stars (1,234 Reviews)\<close> the review count is \<open>4\<close>, not \<open>1234\<close>: the first
  run the pattern matches is the integer part of the rating.
\<close>

theorem number_of_reviews_takes_first_digit_run:
  "sp_number_of_reviews (extract_sales_proxies
     (Tag ''[document]'' None []
        [Tag ''span'' None [] [NavigableString ''4.8 stars (1,234 Reviews)'']])) = ''4''"
  by (simp add: extract_sales_proxies_def mentions_review_def string_eval dom_eval)

section \<open>The price\<close>

text \<open>
  C2, as stated, fails: the price extractor does not return the text of the element as
  it stands. On \<open><span>USD 12.99</span>\<close> the span is the one element scanned, its
  stripped text is \<open>USD 12.99\<close>, and the extractor returns \<open>usd 12.99\<close>.
\<close>

theorem extract_price_not_raw:
  "select [''span'', ''div''] (Tag ''[document]'' None []
       [Tag ''span'' None [] [NavigableString ''USD 12.99'']])
     = [Tag ''span'' None [] [NavigableString ''USD 12.99'']]
   \<and> str_contains ''usd'' (lower (get_text [] (Tag ''span'' None [] [NavigableString ''USD 12.99''])))
   \<and> get_text [] (Tag ''span'' None [] [NavigableString ''USD 12.99'']) = ''USD 12.99''
   \<and> extract_price (Tag ''[document]'' None []
       [Tag ''span'' None [] [NavigableString ''USD 12.99'']]) = ''usd 12.99''
   \<and> extract_price (Tag ''[document]'' None []
       [Tag ''span'' None [] [NavigableString ''USD 12.99'']])
     \<noteq> get_text [] (Tag ''span'' None [] [NavigableString ''USD 12.99''])"
  by (simp add: extract_price_def string_eval dom_eval)

text \<open>
  C2, amended: the price extractor returns the lower-cased stripped text of the first
  \<open>span\<close> or \<open>div\<close>, in document order, whose lower-cased stripped text contains \<open>$\<close> or
  \<open>usd\<close>, with nothing else done to it (no number is parsed out), and \<open>N/A\<close> when no
  such element exists.
\<close>

theorem extract_price_lowered_text:
  "extract_price soup =
     (case List.find (\<lambda>t. str_contains ''$'' (lower (get_text [] t)) \<or>
                           str_contains ''usd'' (lower (get_text [] t)))
                     (select [''span'', ''div''] soup) of
        None \<Rightarrow> ''N/A'' | Some t \<Rightarrow> lower (get_text [] t))"
  by (simp add: extract_price_def extract_price_loop_find)

section \<open>The name\<close>

text \<open>
  C7: the name extractor returns the stripped text of the first \<open>h1\<close> or \<open>h2\<close>, in
  document order, whose stripped text is longer than 4 characters, and \<open>N/A\<close> when there
  is none. On \<open><h1>Velvet Matte Foundation</h1>\<close> it returns
  \<open>Velvet Matte Foundation\<close>; on \<open><h1>SPF</h1>\<close> it returns \<open>N/A\<close>.
\<close>

theorem extract_name_first_long_heading:
  "extract_name soup =
     (case List.find (\<lambda>t. length (get_text [] t) > 4) (select [''h1'', ''h2''] soup) of
        None \<Rightarrow> ''N/A'' | Some t \<Rightarrow> get_text [] t)
   \<and> extract_name (Tag ''[document]'' None []
        [Tag ''h1'' None [] [NavigableString ''Velvet Matte Foundation'']]) = ''Velvet Matte Foundation''
   \<and> extract_name (Tag ''[document]'' None []
        [Tag ''h1'' None [] [NavigableString ''SPF'']]) = ''N/A''"
  by (simp add: extract_name_def extract_name_loop_find string_eval dom_eval)

text \<open>
  C10: only \<open>h1\<close> and \<open>h2\<close> are looked at. When every \<open>h1\<close> and \<open>h2\<close> of the document has
  a stripped text of at most 4 characters, the extractor returns \<open>N/A\<close>, whatever the
  headings of the levels \<open>h3\<close> to \<open>h6\<close> hold.
\<close>

theorem extract_name_only_h1_h2:
  assumes "\<forall>t \<in> set (tags_of soup). tag_name t \<in> {''h1'', ''h2''} \<longrightarrow> length (get_text [] t) \<le> 4"
  shows "extract_name soup = ''N/A''"
  unfolding extract_name_def
  by (rule extract_name_loop_none) (use assms in \<open>auto simp: select_def\<close>)

theorem extract_name_only_h1_h2_witness:
  "extract_name (Tag ''[document]'' None []
     [Tag ''h3'' None [] [NavigableString ''Velvet Matte Foundation''],
      Tag ''h1'' None [] [NavigableString ''SPF'']]) = ''N/A''
   \<and> length (get_text [] (Tag ''h3'' None [] [NavigableString ''Velvet Matte Foundation''])) = 23"
proof
  show "extract_name (Tag ''[document]'' None []
     [Tag ''h3'' None [] [NavigableString ''Velvet Matte Foundation''],
      Tag ''h1'' None [] [NavigableString ''SPF'']]) = ''N/A''"
    by (rule extract_name_only_h1_h2) (simp add: string_eval dom_eval)
  show "length (get_text [] (Tag ''h3'' None [] [NavigableString ''Velvet Matte Foundation''])) = 23"
    by (simp add: string_eval dom_eval)
qed

section \<open>The image\<close>

text \<open>
  C8: the image extractor returns the whole \<open>src\<close> of the first \<open>img\<close>, in document order,
  whose \<open>src\<close> contains \<open>product\<close>, and \<open>N/A\<close> when there is no such element or the
  subscript fails; it is a total function to strings, so no error leaves it. On
  \<open><img src="/assets/product-123.jpg">\<close> it returns \<open>/assets/product-123.jpg\<close>; on a
  document whose images have no such \<open>src\<close> it returns \<open>N/A\<close>.
\<close>

theorem extract_image_first_product_src:
  "extract_image soup =
     (case List.find (\<lambda>t. tag_name t = ''img'' \<and>
                           (\<exists>v. get t ''src'' = Some v \<and> str_contains ''product'' v))
                     (tags_of soup) of
        None \<Rightarrow> ''N/A''
      | Some t \<Rightarrow> (case get t ''src'' of None \<Rightarrow> ''N/A'' | Some v \<Rightarrow> v))
   \<and> extract_image (Tag ''[document]'' None []
        [Tag ''img'' None [(''src'', ''/assets/product-123.jpg'')] []]) = ''/assets/product-123.jpg''
   \<and> extract_image (Tag ''[document]'' None []
        [Tag ''img'' None [(''src'', ''/assets/logo.png'')] [], Tag ''img'' None [] []]) = ''N/A''"
proof -
  have eq: "src_has_product = (\<lambda>t. tag_name t = ''img'' \<and>
                           (\<exists>v. get t ''src'' = Some v \<and> str_contains ''product'' v))"
    by (auto simp: src_has_product_def fun_eq_iff split: option.splits)
  have "extract_image soup =
     (case List.find src_has_product (tags_of soup) of
        None \<Rightarrow> ''N/A''
      | Some t \<Rightarrow> (case get t ''src'' of None \<Rightarrow> ''N/A'' | Some v \<Rightarrow> v))"
    by (simp add: extract_image_def select_one_img_def split: option.splits)
  then show ?thesis
    unfolding eq [symmetric]
    by (simp add: extract_image_def select_one_img_def src_has_product_def string_eval dom_eval)
qed

section \<open>No field is empty\<close>

lemma extract_name_loop_nonempty: "extract_name_loop ts \<noteq> []"
  by (induction ts) (auto simp: Let_def)

lemma extract_name_nonempty: "extract_name soup \<noteq> []"
  by (simp add: extract_name_def extract_name_loop_nonempty)

lemma extract_price_loop_nonempty: "extract_price_loop ts \<noteq> []"
  by (induction ts) (auto simp: Let_def)

lemma extract_price_nonempty: "extract_price soup \<noteq> []"
  by (simp add: extract_price_def extract_price_loop_nonempty)

lemma extract_image_nonempty: "extract_image soup \<noteq> []"
proof (cases "select_one_img soup")
  case None
  then show ?thesis by (simp add: extract_image_def)
next
  case (Some t)
  then have "src_has_product t"
    by (auto simp: select_one_img_def find_Some_iff)
  then obtain v where v: "get t ''src'' = Some v" "str_contains ''product'' v"
    by (auto simp: src_has_product_def split: option.splits)
  from v(2) have "v \<noteq> []" by auto
  with Some v(1) show ?thesis by (simp add: extract_image_def)
qed

lemma stripped_strings_nonempty: "x \<in> set (stripped_strings n) \<Longrightarrow> x \<noteq> []"
  by (auto simp: stripped_strings_def)

lemma join_eq_Nil: "(\<And>x. x \<in> set xs \<Longrightarrow> x \<noteq> []) \<Longrightarrow> join sep xs = [] \<longleftrightarrow> xs = []"
  by (induction sep xs rule: join.induct) auto

lemma get_text_eq_Nil: "get_text sep n = [] \<longleftrightarrow> stripped_strings n = []"
  unfolding get_text_def by (rule join_eq_Nil) (rule stripped_strings_nonempty)

lemma extract_ingredients_loop_nonempty: "extract_ingredients_loop ts \<noteq> []"
proof (induction ts)
  case Nil
  show ?case by simp
next
  case (Cons t ts)
  show ?case
  proof (cases "str_contains ''ingredient'' (lower (get_text [] t))")
    case True
    then have "lower (get_text [] t) \<noteq> []" by auto
    then have "get_text [] t \<noteq> []" by (simp add: lower_def)
    then have "get_text '' '' t \<noteq> []" by (simp add: get_text_eq_Nil)
    with True show ?thesis by simp
  next
    case False
    with Cons show ?thesis by simp
  qed
qed

lemma findall_digit_runs_first:
  "findall_digit_runs s = m # ms \<Longrightarrow> \<exists>d rest. m = d # rest \<and> is_digit d"
proof -
  assume a: "findall_digit_runs s = m # ms"
  show ?thesis
  proof (cases "dropWhile (\<lambda>c. \<not> is_digit c) s")
    case Nil
    with a show ?thesis by (subst (asm) findall_digit_runs.simps) simp
  next
    case (Cons d rest)
    have "is_digit (hd (dropWhile (\<lambda>c. \<not> is_digit c) s))"
      using hd_dropWhile [of "\<lambda>c. \<not> is_digit c" s] Cons by simp
    then have "is_digit d" by (simp add: Cons)
    moreover from a Cons have "m = d # takeWhile digit_or_comma rest"
      by (subst (asm) findall_digit_runs.simps) simp
    ultimately show ?thesis by blast
  qed
qed

lemma remove_commas_nonempty: "is_digit d \<Longrightarrow> remove_commas (d # rest) \<noteq> []"
  by (auto simp: remove_commas_def is_digit_def)

lemma num_reviews_loop_nonempty: "num_reviews_loop texts \<noteq> []"
proof (induction texts)
  case Nil
  show ?case by simp
next
  case (Cons t ts)
  show ?case
  proof (cases "findall_digit_runs t")
    case Nil
    with Cons show ?thesis by simp
  next
    case (Cons m ms)
    from findall_digit_runs_first [OF Cons] obtain d rest where "m = d # rest" "is_digit d"
      by blast
    then have "remove_commas m \<noteq> []" by (simp add: remove_commas_nonempty)
    with Cons show ?thesis by simp
  qed
qed

lemma stock_loop_values: "stock_loop ps pt = ''Out of stock'' \<or> stock_loop ps pt = ''In stock''"
  by (induction ps) simp_all

lemma stock_loop_iff:
  "stock_loop ps pt = ''Out of stock'' \<longleftrightarrow> (\<exists>p \<in> set ps. str_contains p pt)"
  by (induction ps) simp_all

lemma stock_loop_nonempty: "stock_loop ps pt \<noteq> []"
  using stock_loop_values [of ps pt] by auto

lemma extract_ingredients_nonempty: "extract_ingredients soup \<noteq> []"
  by (simp add: extract_ingredients_def extract_ingredients_loop_nonempty)

lemma scrape_product_fields:
  assumes "scrape_product ord u soup = Inr r"
  shows "name r = extract_name soup" and "price r = extract_price soup"
    and "type r = ''Foundation''" and "image_src r = extract_image soup"
    and "ingredients r = extract_ingredients soup"
    and "number_of_reviews r = sp_number_of_reviews (extract_sales_proxies soup)"
    and "stock_status r = sp_stock_status (extract_sales_proxies soup)"
  using assms
  by (auto simp: scrape_product_def Let_def split: sum.splits)

section \<open>The shade extractor returns\<close>

lemma harvest_Inr:
  "harvest d S = Inr (if get_text [] d \<noteq> [] then set_add (get_text [] d) S else S)"
  by (simp add: harvest_def hasattr_get_text_def Let_def)

lemma set_set_add: "set (set_add x S) = insert x (set S)"
  by (auto simp: set_add_def)

lemma distinct_set_add: "distinct S \<Longrightarrow> distinct (set_add x S)"
  by (simp add: set_add_def)

lemma harvest_all_Inr:
  "distinct S \<Longrightarrow>
   \<exists>S'. harvest_all ds S = Inr S' \<and> distinct S' \<and>
        set S' = set S \<union> {x \<in> get_text [] ` set ds. x \<noteq> []}"
proof (induction ds arbitrary: S)
  case Nil
  then show ?case by simp
next
  case (Cons d ds)
  let ?S1 = "if get_text [] d \<noteq> [] then set_add (get_text [] d) S else S"
  have d1: "distinct ?S1" using Cons.prems by (simp add: distinct_set_add)
  from Cons.IH [OF d1] obtain S' where S': "harvest_all ds ?S1 = Inr S'" "distinct S'"
    "set S' = set ?S1 \<union> {x \<in> get_text [] ` set ds. x \<noteq> []}" by blast
  have "harvest_all (d # ds) S = Inr S'"
    using S'(1) by (simp add: harvest_Inr)
  moreover have "set S' = set S \<union> {x \<in> get_text [] ` set (d # ds). x \<noteq> []}"
    unfolding S'(3) by (auto simp: set_set_add)
  ultimately show ?case using S'(2) by blast
qed

lemma extract_shades_Inr:
  "\<exists>cands. harvest_all (concat (map descendants (shade_selectors soup))) [] = Inr cands \<and>
     distinct cands \<and> set cands = harvested_texts soup \<and>
     extract_shades ord soup =
       Inr (if filter (\<lambda>x. strip x \<noteq> []) (ord cands) \<noteq> []
            then filter (\<lambda>x. strip x \<noteq> []) (ord cands) else [''N/A''])"
proof -
  have "distinct ([] :: string list)" by simp
  from harvest_all_Inr [OF this, of "concat (map descendants (shade_selectors soup))"]
  obtain cands where c: "harvest_all (concat (map descendants (shade_selectors soup))) [] = Inr cands"
    "distinct cands"
    "set cands = set [] \<union> {x \<in> get_text [] ` set (concat (map descendants (shade_selectors soup))). x \<noteq> []}"
    by blast
  have "set cands = harvested_texts soup"
    unfolding c(3) harvested_texts_def by auto
  moreover have "extract_shades ord soup =
       Inr (if filter (\<lambda>x. strip x \<noteq> []) (ord cands) \<noteq> []
            then filter (\<lambda>x. strip x \<noteq> []) (ord cands) else [''N/A''])"
    by (simp add: extract_shades_def c(1) Let_def)
  ultimately show ?thesis using c(1,2) by blast
qed

lemma extract_shades_returns: "\<exists>xs. extract_shades ord soup = Inr xs"
  using extract_shades_Inr [of soup ord] by blast

lemma extract_shades_char:
  assumes "iteration_order ord"
  shows "\<exists>xs. extract_shades ord soup = Inr xs \<and> xs \<noteq> [] \<and> distinct xs \<and>
              (if shade_set soup = {} then xs = [''N/A''] else set xs = shade_set soup)"
proof -
  from extract_shades_Inr [of soup ord] obtain cands where
    c: "distinct cands" "set cands = harvested_texts soup"
    and e: "extract_shades ord soup =
       Inr (if filter (\<lambda>x. strip x \<noteq> []) (ord cands) \<noteq> []
            then filter (\<lambda>x. strip x \<noteq> []) (ord cands) else [''N/A''])"
    by blast
  let ?sh = "filter (\<lambda>x. strip x \<noteq> []) (ord cands)"
  from assms c(1) have o: "set (ord cands) = set cands" "distinct (ord cands)"
    by (simp_all add: iteration_order_def)
  have s: "set ?sh = shade_set soup"
    by (auto simp: o(1) c(2) shade_set_def)
  have d: "distinct ?sh" using o(2) by simp
  show ?thesis
  proof (cases "?sh = []")
    case True
    with s have "shade_set soup = {}" by simp
    with True e show ?thesis by simp
  next
    case False
    with s have "shade_set soup \<noteq> {}" by (metis set_empty)
    with False e s d show ?thesis by simp
  qed
qed

lemma iteration_order_rev: "iteration_order rev"
  by (simp add: iteration_order_def)

lemma iteration_order_id: "iteration_order (\<lambda>S. S)"
  by (simp add: iteration_order_def)

section \<open>The aggregator on the sample page\<close>

lemmas shade_eval = extract_shades_def shade_selectors_def attr_has_def harvest_def
  hasattr_get_text_def set_add_def

lemmas review_eval = extract_reviews_def extract_review_def rating_of_def img_alt_star_def
  snippet_def str_of_bool_def search_digits_def

lemmas sales_eval = extract_sales_proxies_def mentions_review_def stock_out_indicators_def
  page_text_def

lemmas field_eval = extract_name_def extract_price_def extract_image_def select_one_img_def
  src_has_product_def extract_ingredients_def

lemma product_page_scrape:
  "scrape_product rev ''u'' product_page =
     Inr \<lparr> url = ''u'', name = ''Velvet Matte Foundation'', price = ''$12.99'',
            type = ''Foundation'', shades = [''Sand'', ''Ivory''],
            image_src = ''/assets/product-123.jpg'',
            ingredients = ''Ingredients: Aqua, Talc'', number_of_reviews = ''N/A'',
            bestseller = False, stock_status = ''Out of stock'', reviews = ''N/A'' \<rparr>"
  by (simp add: product_page_def scrape_product_def field_eval shade_eval sales_eval review_eval
      string_eval dom_eval)

lemma scrape_product_returns:
  assumes "extract_reviews soup = Inr rs"
  shows "\<exists>r. scrape_product ord u soup = Inr r \<and>
             reviews r = (if map snippet rs \<noteq> [] then join '' || '' (map snippet rs) else ''N/A'')"
proof -
  from extract_shades_returns [of ord soup] obtain sh where "extract_shades ord soup = Inr sh"
    by blast
  with assms show ?thesis
    by (simp add: scrape_product_def Let_def)
qed

section \<open>The scalar fields\<close>

text \<open>
  C3: in every record \<open>scrape_product\<close> produces, each of \<open>name\<close>, \<open>price\<close>, \<open>type\<close>,
  \<open>image\<close>, \<open>ingredients\<close>, \<open>number_of_reviews\<close> and \<open>stock_status\<close> is a non-empty
  string (an extracted value or the sentinel \<open>N/A\<close>, itself non-empty); being strings,
  they are never absent.
\<close>

theorem scalar_fields_nonempty:
  assumes "scrape_product ord u soup = Inr r"
  shows "name r \<noteq> [] \<and> price r \<noteq> [] \<and> type r \<noteq> [] \<and> image_src r \<noteq> [] \<and>
         ingredients r \<noteq> [] \<and> number_of_reviews r \<noteq> [] \<and> stock_status r \<noteq> []"
proof -
  have "sp_number_of_reviews (extract_sales_proxies soup) \<noteq> []"
    by (simp add: extract_sales_proxies_def num_reviews_loop_nonempty)
  moreover have "sp_stock_status (extract_sales_proxies soup) \<noteq> []"
    by (simp add: extract_sales_proxies_def stock_loop_nonempty)
  ultimately show ?thesis
    by (simp add: scrape_product_fields [OF assms] extract_name_nonempty extract_price_nonempty
        extract_image_nonempty extract_ingredients_nonempty)
qed

theorem scalar_fields_nonempty_witness:
  "\<exists>r. scrape_product rev ''u'' product_page = Inr r \<and>
       name r = ''Velvet Matte Foundation'' \<and> name r \<noteq> [] \<and> price r \<noteq> [] \<and> type r \<noteq> [] \<and>
       image_src r \<noteq> [] \<and> ingredients r \<noteq> [] \<and> number_of_reviews r \<noteq> [] \<and>
       stock_status r \<noteq> []"
  using scalar_fields_nonempty [OF product_page_scrape] product_page_scrape by simp

section \<open>The shades\<close>

text \<open>
  C4: whatever the order in which the set is walked, the shade extractor returns a
  sequence that is not empty: \<open>[N/A]\<close> when no harvested string survives the filter, and
  otherwise the surviving strings, each once.
\<close>

theorem extract_shades_never_empty:
  assumes "iteration_order ord"
  shows "\<exists>xs. extract_shades ord soup = Inr xs \<and> xs \<noteq> [] \<and> distinct xs \<and>
              (if shade_set soup = {} then xs = [''N/A''] else set xs = shade_set soup)"
  using assms by (rule extract_shades_char)

theorem extract_shades_never_empty_witness:
  "\<exists>xs. extract_shades rev product_page = Inr xs \<and> xs \<noteq> [] \<and> distinct xs \<and>
        (if shade_set product_page = {} then xs = [''N/A''] else set xs = shade_set product_page)"
  by (rule extract_shades_never_empty) (rule iteration_order_rev)

text \<open>
  C9: two runs on the same document, whatever the order each walks the set in, return
  sequences with the same members.
\<close>

theorem extract_shades_same_set:
  assumes "iteration_order ord1" and "iteration_order ord2"
  shows "\<exists>xs ys. extract_shades ord1 soup = Inr xs \<and> extract_shades ord2 soup = Inr ys \<and>
                 set xs = set ys"
proof -
  from extract_shades_char [OF assms(1), of soup] obtain xs where
    x: "extract_shades ord1 soup = Inr xs"
       "if shade_set soup = {} then xs = [''N/A''] else set xs = shade_set soup" by blast
  from extract_shades_char [OF assms(2), of soup] obtain ys where
    y: "extract_shades ord2 soup = Inr ys"
       "if shade_set soup = {} then ys = [''N/A''] else set ys = shade_set soup" by blast
  from x(2) y(2) have "set xs = set ys" by (simp split: if_splits)
  with x(1) y(1) show ?thesis by blast
qed

theorem extract_shades_same_set_witness:
  "\<exists>xs ys. extract_shades (\<lambda>S. S) product_page = Inr xs \<and>
           extract_shades rev product_page = Inr ys \<and> set xs = set ys"
  by (rule extract_shades_same_set) (rule iteration_order_id, rule iteration_order_rev)

section \<open>The reviews\<close>

text \<open>
  C5: when no tag of the document has a class token containing \<open>review\<close>, in any
  letter case, the review extractor returns the empty sequence, and \<open>scrape_product\<close>
  returns a record whose \<open>reviews\<close> field is \<open>N/A\<close>.
\<close>

theorem no_review_container:
  assumes "\<forall>t \<in> set (tags_of soup). \<not> class_has ''review'' t"
  shows "extract_reviews soup = Inr [] \<and>
         (\<exists>r. scrape_product ord u soup = Inr r \<and> reviews r = ''N/A'')"
proof -
  from assms have "find_all (class_has ''review'') soup = []"
    by (simp add: find_all_def filter_empty_conv)
  then have e: "extract_reviews soup = Inr []"
    by (simp add: extract_reviews_def)
  from scrape_product_returns [OF e, of ord u] show ?thesis
    using e by simp
qed

theorem no_review_container_witness:
  "extract_reviews product_page = Inr [] \<and>
   (\<exists>r. scrape_product rev ''u'' product_page = Inr r \<and> reviews r = ''N/A'')"
  by (rule no_review_container) (simp add: product_page_def dom_eval string_eval)

section \<open>The stock status\<close>

lemma is_space_lower_char: "is_space (lower_char c) = is_space c"
proof (cases "map_of (zip ''ABCDEFGHIJKLMNOPQRSTUVWXYZ'' ''abcdefghijklmnopqrstuvwxyz'') c")
  case None
  then show ?thesis by (simp add: lower_char_def)
next
  case (Some d)
  then have m: "(c, d) \<in> set (zip ''ABCDEFGHIJKLMNOPQRSTUVWXYZ'' ''abcdefghijklmnopqrstuvwxyz'')"
    by (rule map_of_SomeD)
  have "c \<in> set ''ABCDEFGHIJKLMNOPQRSTUVWXYZ''" by (rule set_zip_leftD [OF m])
  then have c: "\<not> is_space c" by (auto simp: is_space_def)
  have "d \<in> set ''abcdefghijklmnopqrstuvwxyz''" by (rule set_zip_rightD [OF m])
  then have d: "\<not> is_space d" by (auto simp: is_space_def)
  from Some c d show ?thesis by (simp add: lower_char_def)
qed

lemma dropWhile_space_lower: "dropWhile is_space (lower s) = lower (dropWhile is_space s)"
  by (induction s) (simp_all add: lower_def is_space_lower_char)

lemma strip_lower: "strip (lower s) = lower (strip s)"
proof -
  have r: "rev (lower t) = lower (rev t)" for t by (simp add: lower_def rev_map)
  show ?thesis by (simp add: strip_def dropWhile_space_lower r)
qed

lemma dropWhile_keeps_run:
  assumes "p \<noteq> []" and "\<not> P (hd p)"
  shows "\<exists>a'. dropWhile P (a @ p @ b) = a' @ p @ b"
proof (induction a)
  case Nil
  from assms obtain x xs where "p = x # xs" "\<not> P x" by (cases p) auto
  then have "dropWhile P ([] @ p @ b) = [] @ p @ b" by simp
  then show ?case by blast
next
  case (Cons y ys)
  show ?case
  proof (cases "P y")
    case True
    with Cons show ?thesis by simp
  next
    case False
    then have "dropWhile P ((y # ys) @ p @ b) = (y # ys) @ p @ b" by simp
    then show ?thesis by blast
  qed
qed

lemma sublist_strip:
  assumes "sublist p s" and "p \<noteq> []" and "\<not> is_space (hd p)" and "\<not> is_space (last p)"
  shows "sublist p (strip s)"
proof -
  from assms(1) obtain a b where s: "s = a @ p @ b" by (auto simp: sublist_def)
  from dropWhile_keeps_run [where p=p and P=is_space and a=a and b=b, OF assms(2,3)] obtain a' where
    a': "dropWhile is_space s = a' @ p @ b" unfolding s by blast
  have rp: "rev p \<noteq> []" "\<not> is_space (hd (rev p))"
    using assms(2,4) by (simp_all add: hd_rev)
  from dropWhile_keeps_run [where p="rev p" and P=is_space and a="rev b" and b="rev a'", OF rp] obtain b' where
    b': "dropWhile is_space (rev b @ rev p @ rev a') = b' @ rev p @ rev a'" by blast
  have "strip s = a' @ p @ rev b'"
    by (simp add: strip_def a' b')
  then show ?thesis by (auto simp: sublist_def)
qed

lemma sublist_join:
  "x \<in> set xs \<Longrightarrow> sublist p x \<Longrightarrow> sublist p (join sep xs)"
proof (induction sep xs rule: join.induct)
  case (1 sep)
  then show ?case by simp
next
  case (2 sep y)
  then show ?case by simp
next
  case (3 sep y z zs)
  show ?case
  proof (cases "x = y")
    case True
    with "3.prems"(2) obtain a b where "y = a @ p @ b" by (auto simp: sublist_def)
    then have "join sep (y # z # zs) = a @ p @ (b @ sep @ join sep (z # zs))" by simp
    then show ?thesis unfolding sublist_def by blast
  next
    case False
    with "3.prems" have "x \<in> set (z # zs)" by simp
    from "3.IH" [OF this "3.prems"(2)] obtain a b where "join sep (z # zs) = a @ p @ b"
      by (auto simp: sublist_def)
    then have "join sep (y # z # zs) = (y @ sep @ a) @ p @ b" by simp
    then show ?thesis unfolding sublist_def by blast
  qed
qed

lemma lower_join: "lower (join sep xs) = join (lower sep) (map lower xs)"
  by (induction sep xs rule: join.induct) (simp_all add: lower_def)

lemma text_node_in_page_text:
  assumes "s \<in> set (strings_of soup)" and "sublist p (lower s)"
    and "p \<noteq> []" and "\<not> is_space (hd p)" and "\<not> is_space (last p)"
  shows "sublist p (page_text soup)"
proof -
  have ls: "sublist p (lower (strip s))"
    using sublist_strip [OF assms(2-5)] by (simp add: strip_lower)
  with assms(3) have "lower (strip s) \<noteq> []" by auto
  then have "strip s \<noteq> []" by (auto simp: lower_def)
  with assms(1) have "strip s \<in> set (stripped_strings soup)"
    by (simp add: stripped_strings_def)
  then have "lower (strip s) \<in> set (map lower (stripped_strings soup))" by simp
  from sublist_join [OF this ls] show ?thesis
    by (simp add: page_text_def lower_join)
qed

text \<open>
  C6: the stock status is \<open>Out of stock\<close> exactly when the page text (the stripped
  strings joined by single spaces, lower-cased) contains \<open>out of stock\<close>, \<open>sold out\<close>
  or \<open>unavailable\<close>, and is \<open>In stock\<close> otherwise. In particular a page with a text node
  that contains \<open>Temporarily Out Of Stock\<close>, in any letter case, is \<open>Out of stock\<close>.
\<close>

theorem stock_status_iff:
  "(sp_stock_status (extract_sales_proxies soup) = ''Out of stock'' \<longleftrightarrow>
      str_contains ''out of stock'' (page_text soup) \<or>
      str_contains ''sold out'' (page_text soup) \<or>
      str_contains ''unavailable'' (page_text soup))
   \<and> (sp_stock_status (extract_sales_proxies soup) = ''Out of stock'' \<or>
       sp_stock_status (extract_sales_proxies soup) = ''In stock'')
   \<and> (\<forall>s \<in> set (strings_of soup).
         str_contains ''temporarily out of stock'' (lower s) \<longrightarrow>
         sp_stock_status (extract_sales_proxies soup) = ''Out of stock'')"
proof -
  let ?st = "sp_stock_status (extract_sales_proxies soup)"
  have st: "?st = stock_loop stock_out_indicators (page_text soup)"
    by (simp add: extract_sales_proxies_def)
  have iff: "?st = ''Out of stock'' \<longleftrightarrow>
      str_contains ''out of stock'' (page_text soup) \<or>
      str_contains ''sold out'' (page_text soup) \<or>
      str_contains ''unavailable'' (page_text soup)"
    unfolding st stock_loop_iff by (simp add: stock_out_indicators_def)
  have vals: "?st = ''Out of stock'' \<or> ?st = ''In stock''"
    unfolding st by (rule stock_loop_values)
  have tmp: "?st = ''Out of stock''"
    if s: "s \<in> set (strings_of soup)" and c: "str_contains ''temporarily out of stock'' (lower s)"
    for s
  proof -
    from c have "sublist ''temporarily out of stock'' (lower s)"
      by (simp add: str_contains_sublist)
    from text_node_in_page_text [OF s this]
    have "sublist ''temporarily out of stock'' (page_text soup)"
      by (simp add: is_space_def)
    moreover have "sublist ''out of stock'' ''temporarily out of stock''"
      unfolding str_contains_sublist [symmetric] by simp
    ultimately have "sublist ''out of stock'' (page_text soup)"
      by (rule sublist_order.order_trans [rotated])
    then show ?thesis
      unfolding iff by (simp add: str_contains_sublist)
  qed
  from iff vals tmp show ?thesis by blast
qed

theorem stock_status_iff_witness:
  "sp_stock_status (extract_sales_proxies
     (Tag ''[document]'' None []
        [Tag ''span'' None [] [NavigableString '' Temporarily Out Of Stock '']])) = ''Out of stock''
   \<and> sp_stock_status (extract_sales_proxies
     (Tag ''[document]'' None []
        [Tag ''span'' None [] [NavigableString ''Sold'', Tag ''b'' None [] [NavigableString '' OUT '']]])) = ''Out of stock''
   \<and> sp_stock_status (extract_sales_proxies
     (Tag ''[document]'' None []
        [Tag ''span'' None [] [NavigableString ''Add to bag'']])) = ''In stock''"
proof -
  let ?d = "Tag ''[document]'' None []
        [Tag ''span'' None [] [NavigableString '' Temporarily Out Of Stock '']]"
  have "'' Temporarily Out Of Stock '' \<in> set (strings_of ?d)" by simp
  moreover have "str_contains ''temporarily out of stock'' (lower '' Temporarily Out Of Stock '')"
    by (simp add: string_eval)
  ultimately have "sp_stock_status (extract_sales_proxies ?d) = ''Out of stock''"
    using stock_status_iff [of ?d] by blast
  then show ?thesis
    by (simp add: extract_sales_proxies_def mentions_review_def stock_out_indicators_def
        page_text_def string_eval dom_eval)
qed

end
